theory Spec2Isabelle
  imports Main
begin

section \<open>Strings\<close>

text \<open>
  A JavaScript string is a sequence of UTF-16 code units. The model uses \<open>string\<close> and
  reads every \<open>char\<close> as a code unit below 256; on that range \<open>toLowerCase\<close> acts on
  each unit by itself (the letters A to Z and the accented capitals 0xC0 to 0xDE, the
  multiplication sign 0xD7 left alone), and the white space that \<open>trim\<close> removes is
  tab, line feed, vertical tab, form feed, carriage return, space and the no-break space.
\<close>

definition lowerChar :: "char \<Rightarrow> char" where
  "lowerChar c =
     (let n = (of_char c :: nat)
      in if (65 \<le> n \<and> n \<le> 90) \<or> (192 \<le> n \<and> n \<le> 222 \<and> n \<noteq> 215)
         then char_of (n + 32) else c)"

definition toLowerCase :: "string \<Rightarrow> string" where
  "toLowerCase s = map lowerChar s"

fun startsWith :: "string \<Rightarrow> string \<Rightarrow> bool" where
  "startsWith s [] = True"
| "startsWith [] (p # ps) = False"
| "startsWith (c # cs) (p # ps) = (c = p \<and> startsWith cs ps)"

text \<open>\<open>s.includes(p)\<close>: does \<open>p\<close> occur in \<open>s\<close> at some position.\<close>

fun includesStr :: "string \<Rightarrow> string \<Rightarrow> bool" where
  "includesStr [] p = (p = [])"
| "includesStr (c # cs) p = (startsWith (c # cs) p \<or> includesStr cs p)"

definition isWhiteSpace :: "char \<Rightarrow> bool" where
  "isWhiteSpace c = ((of_char c :: nat) \<in> {9, 10, 11, 12, 13, 32, 160})"

definition trim :: "string \<Rightarrow> string" where
  "trim s = rev (dropWhile isWhiteSpace (rev (dropWhile isWhiteSpace s)))"

text \<open>\<open>s.split(sep)\<close> for a separator of one character.\<close>

fun splitStr :: "char \<Rightarrow> string \<Rightarrow> string list" where
  "splitStr sep [] = [[]]"
| "splitStr sep (c # cs) =
     (if c = sep then [] # splitStr sep cs
      else (case splitStr sep cs of
              [] \<Rightarrow> [[c]]
            | part # parts \<Rightarrow> (c # part) # parts))"

fun joinStr :: "string \<Rightarrow> string list \<Rightarrow> string" where
  "joinStr sep [] = []"
| "joinStr sep [x] = x"
| "joinStr sep (x # y # ys) = x @ sep @ joinStr sep (y # ys)"

text \<open>Indexing an array: \<open>undefined\<close> outside its range.\<close>

definition at :: "'a list \<Rightarrow> nat \<Rightarrow> 'a option" where
  "at xs i = (if i < length xs then Some (xs ! i) else None)"

section \<open>Safety checker (gen.ts, SafetyChecker)\<close>

definition dangerousCommands :: "string list" where
  "dangerousCommands =
     ['':(){:|:&};:'', ''> /dev/sda'', ''chmod -R 777 /'', ''chown -R'', ''dd if='',
      ''format'', ''mkfs'', ''rm -rf /'', ''rm -rf *'']"

definition destructiveKeywords :: "string list" where
  "destructiveKeywords =
     [''> /dev/'', ''dd'', ''del /f /s /q'', ''fdisk'', ''format'', ''mkfs'', ''rm -rf'']"

definition isBlacklisted :: "string \<Rightarrow> bool" where
  "isBlacklisted cmd =
     list_ex (\<lambda>dangerous. includesStr (toLowerCase cmd) (toLowerCase dangerous))
       dangerousCommands"

definition isDestructive :: "string \<Rightarrow> bool" where
  "isDestructive cmd =
     list_ex (\<lambda>keyword. includesStr (toLowerCase cmd) (toLowerCase keyword))
       destructiveKeywords"

section \<open>History store (gen.ts, CommandManager)\<close>

record CommandHistory =
  command :: string
  prompt :: string
  success :: bool
  timestamp :: string

text \<open>
  The history file is absent, or holds something that cannot be read or parsed, or holds
  a JSON array of records. A file whose JSON is not an array of records is outside the
  model. \<open>writable\<close> tells whether \<open>writeFileSync\<close> on the file succeeds.
\<close>

datatype history_file = Absent | Corrupt | Stored "CommandHistory list"

datatype shell_option = ShellDefault | ShellExecutable string

datatype notice =
    HistoryReadFailed
  | HistoryWriteFailed
  | SpawnFailed string
  | ExitCodeError "int option"
  | DangerDetected
  | BlacklistedCommand string
  | BlacklistedPlan
  | DestructiveCommand
  | DestructivePlan
  | Cancelled
  | StepFailed nat

text \<open>
  What a run does to the outside, in the order it does it: \<open>logger.warn\<close> and
  \<open>logger.error\<close> calls, confirmation prompts with their default answer, calls of
  \<open>spawn\<close>, and calls of \<open>saveToHistory\<close> with the record they build. The calls of
  \<open>logger.info\<close>, \<open>logger.box\<close> and \<open>logger.success\<close> only print and are left out.
\<close>

datatype event =
    Warn notice
  | Error notice
  | Prompted bool
  | Spawned string shell_option
  | SaveToHistory CommandHistory

record state =
  historyFile :: history_file
  writable :: bool
  trace :: "event list"

text \<open>What the user types at a confirmation prompt; \<open>Enter\<close> takes the default.\<close>

datatype key = Yes | No | Enter

text \<open>
  What the child object that \<open>spawn\<close> returns delivers. A child that ran emits
  \<open>close\<close> with its exit code (\<open>None\<close> for \<open>null\<close>). When the process could not
  be started, Node emits \<open>error\<close> with a message and after it \<open>close\<close> with the
  negative error number as code, both before the caller that awaits the promise goes on.
\<close>

datatype outcome = SpawnError string int | Closed "int option"

text \<open>
  The collaborators of a run: the user's answer at the n-th prompt, the end of the n-th
  spawned child, the time stamp of the n-th record, and the shell and platform that
  \<open>ContextDetector.detect\<close> reports.
\<close>

record world =
  userInput :: "nat \<Rightarrow> key"
  childOutcome :: "nat \<Rightarrow> string \<Rightarrow> outcome"
  clock :: "nat \<Rightarrow> string"
  shell :: string
  os :: string

definition emit :: "event \<Rightarrow> state \<Rightarrow> state" where
  "emit e st = st\<lparr>trace := trace st @ [e]\<rparr>"

fun isSpawned :: "event \<Rightarrow> bool" where
  "isSpawned (Spawned c s) = True"
| "isSpawned e = False"

fun isPrompted :: "event \<Rightarrow> bool" where
  "isPrompted (Prompted d) = True"
| "isPrompted e = False"

fun isSave :: "event \<Rightarrow> bool" where
  "isSave (SaveToHistory r) = True"
| "isSave e = False"

definition spawned :: "state \<Rightarrow> event list" where
  "spawned st = filter isSpawned (trace st)"

definition prompts :: "state \<Rightarrow> event list" where
  "prompts st = filter isPrompted (trace st)"

definition saves :: "state \<Rightarrow> event list" where
  "saves st = filter isSave (trace st)"

text \<open>The spawns and history records of a run, in their order.\<close>

definition activity :: "state \<Rightarrow> event list" where
  "activity st = filter (\<lambda>e. isSpawned e \<or> isSave e) (trace st)"

definition getHistory :: "state \<Rightarrow> CommandHistory list \<times> state" where
  "getHistory st =
     (case historyFile st of
        Absent \<Rightarrow> ([], st)
      | Corrupt \<Rightarrow> ([], emit (Warn HistoryReadFailed) st)
      | Stored h \<Rightarrow> (h, st))"

definition saveToHistory :: "world \<Rightarrow> string \<Rightarrow> string \<Rightarrow> bool \<Rightarrow> state \<Rightarrow> state" where
  "saveToHistory w cmd userPrompt ok st =
     (let (history, st1) = getHistory st;
          entry = \<lparr>command = cmd, prompt = userPrompt, success = ok,
                   timestamp = clock w (length (saves st))\<rparr>;
          history1 = entry # history;
          history2 = (if length history1 > 50 then take 50 history1 else history1);
          st2 = emit (SaveToHistory entry) st1
      in if writable st2 then st2\<lparr>historyFile := Stored history2\<rparr>
         else emit (Warn HistoryWriteFailed) st2)"

section \<open>Execution sequencer (gen.ts, Gen)\<close>

text \<open>
  \<open>this.exit(n)\<close> throws an exit with status \<open>n\<close>, and no method of the sequencer
  catches what a callee throws. A method returns \<open>Inl\<close> of what it throws and
  \<open>Inr\<close> of what it returns.
\<close>

datatype js_error = TypeError

datatype abort = Exit nat | Thrown js_error

fun answer :: "key \<Rightarrow> bool \<Rightarrow> bool" where
  "answer Yes dflt = True"
| "answer No dflt = False"
| "answer Enter dflt = dflt"

definition confirm :: "world \<Rightarrow> bool \<Rightarrow> state \<Rightarrow> bool \<times> state" where
  "confirm w dflt st =
     (answer (userInput w (length (prompts st))) dflt, emit (Prompted dflt) st)"

text \<open>The \<open>shell\<close> option that \<open>executeCommand\<close> passes to \<open>spawn\<close>.\<close>

definition shellExecutable :: "world \<Rightarrow> shell_option" where
  "shellExecutable w =
     (if shell w = ''powershell'' \<and> os w = ''win32''
      then ShellExecutable ''powershell.exe'' else ShellDefault)"

text \<open>The handlers that \<open>executeCommand\<close> puts on \<open>error\<close> and on \<open>close\<close>.\<close>

definition onError :: "world \<Rightarrow> string \<Rightarrow> string \<Rightarrow> string \<Rightarrow> state \<Rightarrow> bool \<times> state" where
  "onError w cmd userPrompt msg st =
     (False, saveToHistory w cmd userPrompt False (emit (Error (SpawnFailed msg)) st))"

definition onClose ::
  "world \<Rightarrow> string \<Rightarrow> string \<Rightarrow> bool \<Rightarrow> int option \<Rightarrow> state \<Rightarrow> bool \<times> state" where
  "onClose w cmd userPrompt isMultiStep code st =
     (let ok = (code = Some 0 \<or> code = None);
          st1 = (if \<not> ok \<and> \<not> isMultiStep
                 then emit (Error (ExitCodeError code)) st else st)
      in (ok, saveToHistory w cmd userPrompt ok st1))"

text \<open>
  Node's \<open>spawn\<close> throws a \<open>TypeError\<close> on the empty command; thrown inside the
  promise, it makes \<open>executeCommand\<close> throw. On any other command a child is returned
  and its handlers run in the order of its events. The promise keeps the value of the
  first \<open>resolve\<close>; the second call of \<open>resolve\<close> on a failed spawn changes nothing,
  but the second handler has run. (Newer versions of Node also refuse a command with a
  NUL character; such commands are outside the model.)
\<close>

definition executeCommand ::
  "world \<Rightarrow> string \<Rightarrow> string \<Rightarrow> bool \<Rightarrow> state \<Rightarrow> (js_error + bool) \<times> state" where
  "executeCommand w cmd userPrompt isMultiStep st =
     (if cmd = [] then (Inl TypeError, st)
      else
        (let st1 = emit (Spawned cmd (shellExecutable w)) st
         in case childOutcome w (length (spawned st)) cmd of
              SpawnError msg code \<Rightarrow>
                (case onError w cmd userPrompt msg st1 of
                   (resolved, st2) \<Rightarrow>
                     (case onClose w cmd userPrompt isMultiStep (Some code) st2 of
                        (again, st3) \<Rightarrow> (Inr resolved, st3)))
            | Closed code \<Rightarrow>
                (case onClose w cmd userPrompt isMultiStep code st1 of
                   (resolved, st2) \<Rightarrow> (Inr resolved, st2))))"

fun runSteps :: "world \<Rightarrow> string \<Rightarrow> nat \<Rightarrow> string list \<Rightarrow> state \<Rightarrow> (abort + unit) \<times> state" where
  "runSteps w userPrompt i [] st = (Inr (), st)"
| "runSteps w userPrompt i (cmd # rest) st =
     (case executeCommand w cmd userPrompt True st of
        (Inl err, st1) \<Rightarrow> (Inl (Thrown err), st1)
      | (Inr True, st1) \<Rightarrow> runSteps w userPrompt (i + 1) rest st1
      | (Inr False, st1) \<Rightarrow> (Inl (Exit 1), emit (Error (StepFailed (i + 1))) st1))"

definition executeMultipleCommands ::
  "world \<Rightarrow> string list \<Rightarrow> string \<Rightarrow> state \<Rightarrow> (abort + unit) \<times> state" where
  "executeMultipleCommands w commands userPrompt st =
     (let hasDangerous = list_ex isBlacklisted commands
      in if hasDangerous then (Inl (Exit 1), emit (Error BlacklistedPlan) st)
         else
           (let hasDestructive = list_ex isDestructive commands;
                st1 = (if hasDestructive then emit (Warn DestructivePlan) st else st);
                (confirmResult, st2) = confirm w (\<not> hasDestructive) st1
            in if \<not> confirmResult then (Inl (Exit 0), emit (Warn Cancelled) st2)
               else runSteps w userPrompt 0 commands st2))"

definition executeSingleCommand ::
  "world \<Rightarrow> string \<Rightarrow> string \<Rightarrow> state \<Rightarrow> (abort + unit) \<times> state" where
  "executeSingleCommand w cmd userPrompt st =
     (if isBlacklisted cmd
      then (Inl (Exit 1),
            emit (Error (BlacklistedCommand cmd)) (emit (Error DangerDetected) st))
      else
        (let destructive = isDestructive cmd;
             st1 = (if destructive then emit (Warn DestructiveCommand) st else st);
             (confirmResult, st2) = confirm w (\<not> destructive) st1
         in if \<not> confirmResult then (Inl (Exit 0), emit (Warn Cancelled) st2)
            else (case executeCommand w cmd userPrompt False st2 of
                    (Inl err, st3) \<Rightarrow> (Inl (Thrown err), st3)
                  | (Inr ok, st3) \<Rightarrow> (Inr (), st3))))"

text \<open>The end of \<open>run\<close>: one command goes the single way, any other number the multi-step way.\<close>

definition runCommands :: "world \<Rightarrow> string list \<Rightarrow> string \<Rightarrow> state \<Rightarrow> (abort + unit) \<times> state" where
  "runCommands w commands userPrompt st =
     (if length commands = 1 then executeSingleCommand w (commands ! 0) userPrompt st
      else executeMultipleCommands w commands userPrompt st)"

text \<open>The record that \<open>saveToHistory\<close> builds in state \<open>st\<close>.\<close>

definition newEntry :: "world \<Rightarrow> string \<Rightarrow> string \<Rightarrow> bool \<Rightarrow> state \<Rightarrow> CommandHistory" where
  "newEntry w cmd userPrompt ok st =
     \<lparr>command = cmd, prompt = userPrompt, success = ok, timestamp = clock w (length (saves st))\<rparr>"

section \<open>Response parser (gen.ts, Gen.parseAIResponse)\<close>

text \<open>
  \<open>line.split(':')[1].trim()\<close> throws a \<open>TypeError\<close> when the array has no second
  element; the parser returns \<open>Inl TypeError\<close> there. The two loops of the source are
  \<open>parseMultiStep\<close> and \<open>parseSingle\<close>, with the plan built so far as accumulator.
\<close>

record ParsedPlan =
  commands :: "string list"
  suggestions :: "string list"

fun parseMultiStep :: "string list \<Rightarrow> ParsedPlan \<Rightarrow> js_error + ParsedPlan" where
  "parseMultiStep [] acc = Inr acc"
| "parseMultiStep (line # rest) acc =
     (if startsWith line ''STEP'' then
        (let cmd = trim (joinStr '':'' (drop 1 (splitStr (CHR '':'') line)))
         in parseMultiStep rest (acc\<lparr>commands := commands acc @ [cmd]\<rparr>))
      else if startsWith line ''SUGGESTIONS:'' then
        (case at (splitStr (CHR '':'') line) 1 of
           None \<Rightarrow> Inl TypeError
         | Some part \<Rightarrow>
             (let sugg = trim part
              in parseMultiStep rest
                   (acc\<lparr>suggestions := map trim (splitStr (CHR ''|'') sugg)\<rparr>)))
      else parseMultiStep rest acc)"

fun parseSingle :: "string list \<Rightarrow> ParsedPlan \<Rightarrow> js_error + ParsedPlan" where
  "parseSingle [] acc = Inr acc"
| "parseSingle (line # rest) acc =
     (if startsWith line ''COMMAND:'' then
        parseSingle rest
          (acc\<lparr>commands := commands acc
                   @ [trim (joinStr '':'' (drop 1 (splitStr (CHR '':'') line)))]\<rparr>)
      else if startsWith line ''SUGGESTIONS:'' then
        (case at (splitStr (CHR '':'') line) 1 of
           None \<Rightarrow> Inl TypeError
         | Some part \<Rightarrow>
             (let sugg = trim part
              in parseSingle rest
                   (acc\<lparr>suggestions := map trim (splitStr (CHR ''|'') sugg)\<rparr>)))
      else parseSingle rest acc)"

definition responseLines :: "string \<Rightarrow> string list" where
  "responseLines response = filter (\<lambda>l. l \<noteq> []) (map trim (splitStr (CHR 0x0A) response))"

definition parseAIResponse :: "string \<Rightarrow> js_error + ParsedPlan" where
  "parseAIResponse response =
     (if includesStr response ''MULTI_STEP''
      then parseMultiStep (responseLines response) \<lparr>commands = [], suggestions = []\<rparr>
      else parseSingle (responseLines response) \<lparr>commands = [], suggestions = []\<rparr>)"

text \<open>
  Two readings of a line used to state what the parser keeps: the text after the first
  colon, and the part of it before the next colon.
\<close>

definition afterFirstColon :: "string \<Rightarrow> string" where
  "afterFirstColon l = drop 1 (dropWhile (\<lambda>c. c \<noteq> CHR '':'') l)"

definition betweenFirstAndSecondColon :: "string \<Rightarrow> string" where
  "betweenFirstAndSecondColon l = takeWhile (\<lambda>c. c \<noteq> CHR '':'') (afterFirstColon l)"

section \<open>Retry helper (fix.ts, retryWithBackoff)\<close>

text \<open>
  The wrapped operation acts on some outside state: one invocation takes the state and
  gives the rejection reason (\<open>Inl\<close>) or the resolved value (\<open>Inr\<close>), and the next
  state. The helper gives \<open>Inl\<close> of what it throws, \<open>None\<close> standing for
  \<open>undefined\<close>, or \<open>Inr\<close> of what it returns. The log has one entry for each
  invocation of the operation, for each \<open>logger.warn\<close> (attempt number and delay), and
  for each wait (the delay handed to \<open>setTimeout\<close>). \<open>maxRetries\<close> and \<open>baseDelay\<close>
  are whole numbers here.
\<close>

datatype retry_event = Invoked | RetryWarning int int | Waited int

function retryLoop ::
  "('s \<Rightarrow> ('e + 'a) \<times> 's) \<Rightarrow> int \<Rightarrow> int \<Rightarrow> nat \<Rightarrow> 'e option \<Rightarrow> 's \<Rightarrow> retry_event list
     \<Rightarrow> ('e option + 'a) \<times> 's \<times> retry_event list" where
  "retryLoop fn maxRetries baseDelay attempt lastError s evs =
     (if int attempt < maxRetries then
        (case fn s of
           (Inr v, s1) \<Rightarrow> (Inr v, s1, evs @ [Invoked])
         | (Inl err, s1) \<Rightarrow>
             (if int attempt < maxRetries - 1 then
                (let delay = baseDelay * 2 ^ attempt
                 in retryLoop fn maxRetries baseDelay (attempt + 1) (Some err) s1
                      (evs @ [Invoked, RetryWarning (int attempt + 1) delay, Waited delay]))
              else retryLoop fn maxRetries baseDelay (attempt + 1) (Some err) s1
                     (evs @ [Invoked])))
      else (Inl lastError, s, evs))"
  by pat_completeness auto
termination
  by (relation "measure (\<lambda>(fn, maxRetries, baseDelay, attempt, lastError, s, evs).
        nat (maxRetries - int attempt))") auto

declare retryLoop.simps [simp del]

definition retryWithBackoff ::
  "('s \<Rightarrow> ('e + 'a) \<times> 's) \<Rightarrow> int \<Rightarrow> int \<Rightarrow> 's \<Rightarrow> ('e option + 'a) \<times> 's \<times> retry_event list" where
  "retryWithBackoff fn maxRetries baseDelay s = retryLoop fn maxRetries baseDelay 0 None s []"

section \<open>Sample inputs\<close>

definition exampleWorld :: world where
  "exampleWorld =
     \<lparr>userInput = (\<lambda>n. Yes),
      childOutcome = (\<lambda>n c. if n = 0 then Closed (Some 0)
                            else if n = 1 then Closed (Some 2) else Closed None),
      clock = (\<lambda>n. ''2025-01-01T00:00:00.000Z''),
      shell = ''bash'', os = ''linux''\<rparr>"

definition emptyState :: state where
  "emptyState = \<lparr>historyFile = Absent, writable = True, trace = []\<rparr>"

text \<open>A world where the second child cannot be started.\<close>

definition spawnFailureWorld :: world where
  "spawnFailureWorld =
     \<lparr>userInput = (\<lambda>n. Yes),
      childOutcome = (\<lambda>n c. if n = 1 then SpawnError ''spawn /bin/sh EAGAIN'' (- 11)
                            else Closed (Some 0)),
      clock = (\<lambda>n. if n = 0 then ''2025-01-01T00:00:01.000Z''
                   else if n = 1 then ''2025-01-01T00:00:02.000Z''
                   else ''2025-01-01T00:00:02.001Z''),
      shell = ''bash'', os = ''linux''\<rparr>"

definition fullHistory :: "CommandHistory list" where
  "fullHistory =
     map (\<lambda>n. \<lparr>command = replicate n (CHR ''x''), prompt = ''p'', success = True,
                timestamp = ''2024-12-31T00:00:00.000Z''\<rparr>) [0..<50]"

definition fullState :: state where
  "fullState = \<lparr>historyFile = Stored fullHistory, writable = True, trace = []\<rparr>"

definition stepWithoutCommand :: string where
  "stepWithoutCommand = ''MULTI_STEP'' @ [CHR 0x0A] @ ''STEP1: mkdir x'' @ [CHR 0x0A] @ ''STEP2''"

definition flakyOp :: "nat \<Rightarrow> (string + int) \<times> nat" where
  "flakyOp n = (if n < 2 then Inl ''timeout'' else Inr 42, Suc n)"

definition failingOp :: "nat \<Rightarrow> (nat + int) \<times> nat" where
  "failingOp n = (Inl n, Suc n)"

section \<open>String search\<close>

lemma startsWith_iff: "startsWith s p \<longleftrightarrow> (\<exists>b. s = p @ b)"
  by (induction s p rule: startsWith.induct) auto

lemma includesStr_iff: "includesStr s p \<longleftrightarrow> (\<exists>a b. s = a @ p @ b)"
proof (induction s)
  case Nil
  show ?case by simp
next
  case (Cons c cs)
  have "(\<exists>a b. c # cs = a @ p @ b) \<longleftrightarrow> (\<exists>b. c # cs = p @ b) \<or> (\<exists>a b. cs = a @ p @ b)"
  proof
    assume "\<exists>a b. c # cs = a @ p @ b"
    then obtain a b where ab: "c # cs = a @ p @ b" by blast
    show "(\<exists>b. c # cs = p @ b) \<or> (\<exists>a b. cs = a @ p @ b)"
    proof (cases a)
      case Nil
      with ab show ?thesis by auto
    next
      case (Cons x a')
      with ab have "cs = a' @ p @ b" by simp
      then show ?thesis by blast
    qed
  next
    assume "(\<exists>b. c # cs = p @ b) \<or> (\<exists>a b. cs = a @ p @ b)"
    then show "\<exists>a b. c # cs = a @ p @ b"
    proof
      assume "\<exists>b. c # cs = p @ b"
      then obtain b where "c # cs = [] @ p @ b" by auto
      then show ?thesis by blast
    next
      assume "\<exists>a b. cs = a @ p @ b"
      then obtain a b where "c # cs = (c # a) @ p @ b" by auto
      then show ?thesis by blast
    qed
  qed
  with Cons show ?case by (simp add: startsWith_iff)
qed

lemma includes_lower:
  assumes "cmd = pre @ mid @ post" and "toLowerCase mid = toLowerCase pat"
  shows "includesStr (toLowerCase cmd) (toLowerCase pat)"
proof -
  have "toLowerCase cmd = toLowerCase pre @ toLowerCase pat @ toLowerCase post"
    using assms by (simp add: toLowerCase_def)
  then show ?thesis unfolding includesStr_iff by blast
qed

lemma isBlacklisted_contains:
  assumes "pat \<in> set dangerousCommands"
      and "cmd = pre @ mid @ post" and "toLowerCase mid = toLowerCase pat"
  shows "isBlacklisted cmd"
  unfolding isBlacklisted_def list_ex_iff
  using assms(1) includes_lower [OF assms(2,3)] by blast

lemma isDestructive_contains:
  assumes "pat \<in> set destructiveKeywords"
      and "cmd = pre @ mid @ post" and "toLowerCase mid = toLowerCase pat"
  shows "isDestructive cmd"
  unfolding isDestructive_def list_ex_iff
  using assms(1) includes_lower [OF assms(2,3)] by blast

lemma includesStr_map:
  assumes "includesStr (map f s) (map f p)"
  shows "\<exists>a m b. s = a @ m @ b \<and> map f m = map f p"
proof -
  from assms obtain x y where "map f s = x @ map f p @ y" unfolding includesStr_iff by blast
  then show ?thesis
    by (metis map_eq_append_conv)
qed

lemma isBlacklisted_iff:
  "isBlacklisted cmd \<longleftrightarrow>
     (\<exists>pat\<in>set dangerousCommands. \<exists>a m b. cmd = a @ m @ b \<and> toLowerCase m = toLowerCase pat)"
  unfolding isBlacklisted_def list_ex_iff toLowerCase_def
  by (metis includesStr_map includes_lower toLowerCase_def)

section \<open>Effects of the history store and of one execution\<close>

lemma emit_simps [simp]:
  "trace (emit e st) = trace st @ [e]"
  "historyFile (emit e st) = historyFile st"
  "writable (emit e st) = writable st"
  by (simp_all add: emit_def)

lemma spawned_emit [simp]: "spawned (emit e st) = spawned st @ (if isSpawned e then [e] else [])"
  by (simp add: spawned_def)

lemma prompts_emit [simp]: "prompts (emit e st) = prompts st @ (if isPrompted e then [e] else [])"
  by (simp add: prompts_def)

lemma saves_emit [simp]: "saves (emit e st) = saves st @ (if isSave e then [e] else [])"
  by (simp add: saves_def)

lemma activity_emit [simp]:
  "activity (emit e st) = activity st @ (if isSpawned e \<or> isSave e then [e] else [])"
  by (simp add: activity_def)

lemma getHistory_state:
  "historyFile (snd (getHistory st)) = historyFile st"
  "writable (snd (getHistory st)) = writable st"
  "spawned (snd (getHistory st)) = spawned st"
  "prompts (snd (getHistory st)) = prompts st"
  "saves (snd (getHistory st)) = saves st"
  "activity (snd (getHistory st)) = activity st"
  by (simp_all add: getHistory_def split: history_file.splits)

lemma getHistory_file:
  "historyFile st = historyFile st' \<Longrightarrow> fst (getHistory st) = fst (getHistory st')"
  by (simp add: getHistory_def split: history_file.splits)

lemma saveToHistory_state:
  "spawned (saveToHistory w c p ok st) = spawned st"
  "prompts (saveToHistory w c p ok st) = prompts st"
  "writable (saveToHistory w c p ok st) = writable st"
  "saves (saveToHistory w c p ok st) = saves st @ [SaveToHistory (newEntry w c p ok st)]"
  "activity (saveToHistory w c p ok st) = activity st @ [SaveToHistory (newEntry w c p ok st)]"
  "historyFile (saveToHistory w c p ok st) =
     (if writable st then Stored (take 50 (newEntry w c p ok st # fst (getHistory st)))
      else historyFile st)"
  by (simp_all add: saveToHistory_def newEntry_def getHistory_def Let_def spawned_def prompts_def saves_def activity_def
      split: history_file.splits prod.splits)

lemma newEntry_emit [simp]:
  "\<not> isSave e \<Longrightarrow> newEntry w c p ok (emit e st) = newEntry w c p ok st"
  by (simp add: newEntry_def)

lemma getHistory_emit [simp]: "fst (getHistory (emit e st)) = fst (getHistory st)"
  by (simp add: getHistory_def split: history_file.splits)

lemma onClose_fst: "fst (onClose w c p m code st) = (code = Some 0 \<or> code = None)"
  by (simp add: onClose_def Let_def)

lemma onClose_state:
  fixes w c p m code st
  defines "r \<equiv> onClose w c p m code st"
  shows "spawned (snd r) = spawned st"
    and "prompts (snd r) = prompts st"
    and "writable (snd r) = writable st"
    and "saves (snd r) = saves st @ [SaveToHistory (newEntry w c p (fst r) st)]"
    and "activity (snd r) = activity st @ [SaveToHistory (newEntry w c p (fst r) st)]"
    and "historyFile (snd r) =
           (if writable st then Stored (take 50 (newEntry w c p (fst r) st # fst (getHistory st)))
            else historyFile st)"
  unfolding r_def by (simp_all add: onClose_def Let_def saveToHistory_state)

lemma onError_state:
  fixes w c p msg st
  defines "r \<equiv> onError w c p msg st"
  shows "fst r = False"
    and "spawned (snd r) = spawned st"
    and "prompts (snd r) = prompts st"
    and "writable (snd r) = writable st"
    and "saves (snd r) = saves st @ [SaveToHistory (newEntry w c p False st)]"
    and "activity (snd r) = activity st @ [SaveToHistory (newEntry w c p False st)]"
    and "historyFile (snd r) =
           (if writable st then Stored (take 50 (newEntry w c p False st # fst (getHistory st)))
            else historyFile st)"
  unfolding r_def by (simp_all add: onError_def saveToHistory_state)

lemma executeCommand_empty: "executeCommand w [] p m st = (Inl TypeError, st)"
  by (simp add: executeCommand_def)

lemma executeCommand_closed:
  assumes "c \<noteq> []" and "childOutcome w (length (spawned st)) c = Closed code"
  shows "executeCommand w c p m st =
           (Inr (code = Some 0 \<or> code = None),
            snd (onClose w c p m code (emit (Spawned c (shellExecutable w)) st)))"
  using assms by (simp add: executeCommand_def Let_def case_prod_beta onClose_fst)

lemma executeCommand_spawn_error:
  assumes "c \<noteq> []" and "childOutcome w (length (spawned st)) c = SpawnError msg code"
  shows "executeCommand w c p m st =
           (Inr False,
            snd (onClose w c p m (Some code)
                  (snd (onError w c p msg (emit (Spawned c (shellExecutable w)) st)))))"
  using assms by (simp add: executeCommand_def Let_def case_prod_beta onError_state)

lemma executeCommand_started:
  assumes "c \<noteq> []"
  shows "\<exists>ok. fst (executeCommand w c p m st) = Inr ok"
    and "spawned (snd (executeCommand w c p m st)) = spawned st @ [Spawned c (shellExecutable w)]"
proof -
  show "\<exists>ok. fst (executeCommand w c p m st) = Inr ok"
  proof (cases "childOutcome w (length (spawned st)) c")
    case (SpawnError msg code)
    with assms show ?thesis by (auto simp add: executeCommand_spawn_error)
  next
    case (Closed code)
    with assms show ?thesis by (simp add: executeCommand_closed)
  qed
  show "spawned (snd (executeCommand w c p m st)) = spawned st @ [Spawned c (shellExecutable w)]"
  proof (cases "childOutcome w (length (spawned st)) c")
    case (SpawnError msg code)
    with assms show ?thesis
      by (simp add: executeCommand_spawn_error onClose_state onError_state)
  next
    case (Closed code)
    with assms show ?thesis by (simp add: executeCommand_closed onClose_state)
  qed
qed

section \<open>Blacklisted commands\<close>

text \<open>
  Claim C1. A command that has a blacklisted pattern as a substring, letter case aside, is
  blacklisted; the single-command way, the multi-step way (for any plan holding such a
  command) and the dispatch at the end of \<open>run\<close> all exit with status 1, and neither
  a spawn, a history record nor a prompt is added, and the history file stays as it was.
\<close>

theorem blacklisted_never_spawns:
  assumes "pat \<in> set dangerousCommands"
      and "cmd = pre @ mid @ post" and "toLowerCase mid = toLowerCase pat"
      and "cmd \<in> set cmds"
  shows "isBlacklisted cmd
       \<and> (\<exists>st'. executeSingleCommand w cmd userPrompt st = (Inl (Exit 1), st')
              \<and> activity st' = activity st \<and> prompts st' = prompts st
              \<and> historyFile st' = historyFile st)
       \<and> (\<exists>st'. executeMultipleCommands w cmds userPrompt st = (Inl (Exit 1), st')
              \<and> activity st' = activity st \<and> prompts st' = prompts st
              \<and> historyFile st' = historyFile st)
       \<and> (\<exists>st'. runCommands w cmds userPrompt st = (Inl (Exit 1), st')
              \<and> activity st' = activity st \<and> prompts st' = prompts st
              \<and> historyFile st' = historyFile st)"
proof -
  have b: "isBlacklisted cmd"
    using assms(1-3) by (rule isBlacklisted_contains)
  have single: "\<exists>st'. executeSingleCommand w cmd userPrompt st = (Inl (Exit 1), st')
              \<and> activity st' = activity st \<and> prompts st' = prompts st
              \<and> historyFile st' = historyFile st"
    using b by (simp add: executeSingleCommand_def)
  have "list_ex isBlacklisted cmds"
    using b assms(4) unfolding list_ex_iff by blast
  then have multi: "\<exists>st'. executeMultipleCommands w cmds userPrompt st = (Inl (Exit 1), st')
              \<and> activity st' = activity st \<and> prompts st' = prompts st
              \<and> historyFile st' = historyFile st"
    by (simp add: executeMultipleCommands_def)
  have "length cmds = 1 \<Longrightarrow> cmds ! 0 = cmd"
    using assms(4) by (cases cmds) auto
  then have "\<exists>st'. runCommands w cmds userPrompt st = (Inl (Exit 1), st')
              \<and> activity st' = activity st \<and> prompts st' = prompts st
              \<and> historyFile st' = historyFile st"
    using single multi unfolding runCommands_def by (cases "length cmds = 1") simp_all
  with b single multi show ?thesis by blast
qed

theorem blacklisted_never_spawns_witness:
  "isBlacklisted ''sudo RM -RF /tmp''
       \<and> (\<exists>st'. executeSingleCommand exampleWorld ''sudo RM -RF /tmp'' ''clean up'' emptyState = (Inl (Exit 1), st')
              \<and> activity st' = activity emptyState \<and> prompts st' = prompts emptyState
              \<and> historyFile st' = historyFile emptyState)
       \<and> (\<exists>st'. executeMultipleCommands exampleWorld [''echo start'', ''sudo RM -RF /tmp''] ''clean up'' emptyState = (Inl (Exit 1), st')
              \<and> activity st' = activity emptyState \<and> prompts st' = prompts emptyState
              \<and> historyFile st' = historyFile emptyState)
       \<and> (\<exists>st'. runCommands exampleWorld [''echo start'', ''sudo RM -RF /tmp''] ''clean up'' emptyState = (Inl (Exit 1), st')
              \<and> activity st' = activity emptyState \<and> prompts st' = prompts emptyState
              \<and> historyFile st' = historyFile emptyState)"
proof -
  have h1: "''rm -rf /'' \<in> set dangerousCommands"
    by (simp add: dangerousCommands_def)
  have h2: "''sudo RM -RF /tmp'' = ''sudo '' @ ''RM -RF /'' @ ''tmp''"
    by simp
  have h3: "toLowerCase ''RM -RF /'' = toLowerCase ''rm -rf /''"
    by code_simp
  have h4: "''sudo RM -RF /tmp'' \<in> set [''echo start'', ''sudo RM -RF /tmp'']"
    by simp
  show ?thesis
    by (rule blacklisted_never_spawns [OF h1 h2 h3 h4])
qed

section \<open>Destructive commands\<close>

text \<open>
  Claim C2. A command with a destructive pattern and no blacklisted one is destructive;
  the single-command way then warns, asks with the default answer \<open>False\<close>, runs the
  command when the user answers yes, and otherwise exits with status 0 without running it.
\<close>

theorem destructive_only_changes_default:
  assumes "pat \<in> set destructiveKeywords"
      and "cmd = pre @ mid @ post" and "toLowerCase mid = toLowerCase pat"
      and "\<forall>bad\<in>set dangerousCommands. \<forall>a m b. cmd = a @ m @ b \<longrightarrow> toLowerCase m \<noteq> toLowerCase bad"
  shows "isDestructive cmd
       \<and> executeSingleCommand w cmd userPrompt st =
           (let st2 = emit (Prompted False) (emit (Warn DestructiveCommand) st)
            in if userInput w (length (prompts st)) = Yes
               then (Inr (), snd (executeCommand w cmd userPrompt False st2))
               else (Inl (Exit 0), emit (Warn Cancelled) st2))
       \<and> spawned (snd (executeCommand w cmd userPrompt False
                     (emit (Prompted False) (emit (Warn DestructiveCommand) st)))) =
           spawned st @ [Spawned cmd (shellExecutable w)]"
proof -
  have d: "isDestructive cmd"
    using assms(1-3) by (rule isDestructive_contains)
  have nb: "\<not> isBlacklisted cmd"
    using assms(4) unfolding isBlacklisted_iff by blast
  have "pat \<noteq> []"
    using assms(1) by (auto simp add: destructiveKeywords_def)
  then have "mid \<noteq> []"
    using assms(3) by (auto simp add: toLowerCase_def)
  then have ne: "cmd \<noteq> []"
    using assms(2) by simp
  let ?st2 = "emit (Prompted False) (emit (Warn DestructiveCommand) st)"
  obtain ok where ok: "fst (executeCommand w cmd userPrompt False ?st2) = Inr ok"
    using executeCommand_started(1) [OF ne] by blast
  then have run: "executeCommand w cmd userPrompt False ?st2 =
      (Inr ok, snd (executeCommand w cmd userPrompt False ?st2))"
    by (simp add: prod_eq_iff)
  have "executeSingleCommand w cmd userPrompt st =
           (let st2 = emit (Prompted False) (emit (Warn DestructiveCommand) st)
            in if userInput w (length (prompts st)) = Yes
               then (Inr (), snd (executeCommand w cmd userPrompt False st2))
               else (Inl (Exit 0), emit (Warn Cancelled) st2))"
  proof (cases "userInput w (length (prompts st))")
    case Yes
    have "(case executeCommand w cmd userPrompt False ?st2 of
             (Inl err, st3) \<Rightarrow> (Inl (Thrown err), st3)
           | (Inr ok, st3) \<Rightarrow> (Inr (), st3)) =
          (Inr (), snd (executeCommand w cmd userPrompt False ?st2))"
      by (subst run) simp
    with Yes d nb show ?thesis
      by (simp add: executeSingleCommand_def confirm_def Let_def)
  next
    case No
    with d nb show ?thesis
      by (simp add: executeSingleCommand_def confirm_def Let_def)
  next
    case Enter
    with d nb show ?thesis
      by (simp add: executeSingleCommand_def confirm_def Let_def)
  qed
  moreover have "spawned (snd (executeCommand w cmd userPrompt False
                     (emit (Prompted False) (emit (Warn DestructiveCommand) st)))) =
           spawned st @ [Spawned cmd (shellExecutable w)]"
    by (simp add: executeCommand_started(2) [OF ne])
  ultimately show ?thesis using d by blast
qed

theorem destructive_only_changes_default_witness:
  "isDestructive ''rm -rf build''
       \<and> executeSingleCommand exampleWorld ''rm -rf build'' ''clean'' emptyState =
           (let st2 = emit (Prompted False) (emit (Warn DestructiveCommand) emptyState)
            in if userInput exampleWorld (length (prompts emptyState)) = Yes
               then (Inr (), snd (executeCommand exampleWorld ''rm -rf build'' ''clean'' False st2))
               else (Inl (Exit 0), emit (Warn Cancelled) st2))
       \<and> spawned (snd (executeCommand exampleWorld ''rm -rf build'' ''clean'' False
                     (emit (Prompted False) (emit (Warn DestructiveCommand) emptyState)))) =
           spawned emptyState @ [Spawned ''rm -rf build'' (shellExecutable exampleWorld)]"
proof -
  have h1: "''rm -rf'' \<in> set destructiveKeywords"
    by (simp add: destructiveKeywords_def)
  have h2: "''rm -rf build'' = [] @ ''rm -rf'' @ '' build''"
    by simp
  have h3: "toLowerCase ''rm -rf'' = toLowerCase ''rm -rf''"
    by simp
  have "\<not> isBlacklisted ''rm -rf build''"
    by code_simp
  then have h4: "\<forall>bad\<in>set dangerousCommands. \<forall>a m b.
      ''rm -rf build'' = a @ m @ b \<longrightarrow> toLowerCase m \<noteq> toLowerCase bad"
    unfolding isBlacklisted_iff by blast
  show ?thesis
    by (rule destructive_only_changes_default [OF h1 h2 h3 h4])
qed

section \<open>Exit codes\<close>

text \<open>
  Claim C7. When the command is run and its child closes with code \<open>code\<close>,
  \<open>executeCommand\<close> returns, and records in the history entry, success exactly when the
  code is zero or unavailable. (On the empty command \<open>spawn\<close> throws: there is no child
  and no code.)
\<close>

theorem exit_code_zero_or_null_is_success:
  assumes "cmd \<noteq> []"
      and "childOutcome w (length (spawned st)) cmd = Closed code"
  shows "fst (executeCommand w cmd userPrompt isMultiStep st) = Inr (code = Some 0 \<or> code = None)
       \<and> saves (snd (executeCommand w cmd userPrompt isMultiStep st)) =
           saves st @ [SaveToHistory \<lparr>command = cmd, prompt = userPrompt,
                         success = (code = Some 0 \<or> code = None),
                         timestamp = clock w (length (saves st))\<rparr>]"
  by (simp add: executeCommand_closed [OF assms] onClose_state onClose_fst newEntry_def)

theorem exit_code_zero_or_null_is_success_witness:
  "fst (executeCommand exampleWorld ''ls'' ''list files'' False emptyState) = Inr True
       \<and> saves (snd (executeCommand exampleWorld ''ls'' ''list files'' False emptyState)) =
           [SaveToHistory \<lparr>command = ''ls'', prompt = ''list files'', success = True,
              timestamp = ''2025-01-01T00:00:00.000Z''\<rparr>]"
proof -
  have n: "''ls'' \<noteq> []"
    by simp
  have h: "childOutcome exampleWorld (length (spawned emptyState)) ''ls'' = Closed (Some 0)"
    by (simp add: exampleWorld_def emptyState_def spawned_def)
  have s: "saves emptyState = []" "clock exampleWorld 0 = ''2025-01-01T00:00:00.000Z''"
    by (simp_all add: exampleWorld_def emptyState_def saves_def)
  show ?thesis
    using exit_code_zero_or_null_is_success [OF n h, of "''list files''" False]
    by (simp add: s)
qed

section \<open>History retention\<close>

text \<open>
  Claim C8. On a stored list \<open>h\<close> and a writable file, \<open>saveToHistory\<close> stores a list
  whose head is the new record and whose tail is the first 49 records of \<open>h\<close> in their
  order, at most 50 long; on a list of 50 the result has 50 records and the last (oldest)
  record of \<open>h\<close> is gone.
\<close>

theorem saveToHistory_newest_first_capped:
  assumes "historyFile st = Stored h" and "writable st"
  shows "\<exists>new. historyFile (saveToHistory w cmd userPrompt ok st) = Stored new
       \<and> hd new = \<lparr>command = cmd, prompt = userPrompt, success = ok,
                    timestamp = clock w (length (saves st))\<rparr>
       \<and> tl new = take 49 h
       \<and> length new \<le> 50
       \<and> (length h = 50 \<longrightarrow> length new = 50 \<and> tl new = butlast h)"
proof -
  let ?e = "\<lparr>command = cmd, prompt = userPrompt, success = ok,
              timestamp = clock w (length (saves st))\<rparr>"
  have "historyFile (saveToHistory w cmd userPrompt ok st) = Stored (?e # take 49 h)"
    using assms by (simp add: saveToHistory_state newEntry_def getHistory_def)
  moreover have "length h = 50 \<Longrightarrow> take 49 h = butlast h"
    by (simp add: butlast_conv_take)
  ultimately show ?thesis by auto
qed

theorem saveToHistory_newest_first_capped_witness:
  "\<exists>new. historyFile (saveToHistory exampleWorld ''ls'' ''list files'' True fullState) = Stored new
       \<and> hd new = \<lparr>command = ''ls'', prompt = ''list files'', success = True,
                    timestamp = clock exampleWorld (length (saves fullState))\<rparr>
       \<and> tl new = take 49 fullHistory
       \<and> length new = 50 \<and> tl new = butlast fullHistory"
proof -
  have h1: "historyFile fullState = Stored fullHistory"
    by (simp add: fullState_def)
  have h2: "writable fullState"
    by (simp add: fullState_def)
  have len: "length fullHistory = 50"
    by (simp add: fullHistory_def)
  show ?thesis
    using saveToHistory_newest_first_capped [OF h1 h2, of exampleWorld "''ls''" "''list files''" True] len
    by blast
qed

section \<open>Fail-fast multi-step execution\<close>

text \<open>
  A confirmed plan of three steps, none blacklisted, whose first step succeeds and whose
  second closes with a code other than zero: the run exits with status 1 after spawning
  the first two steps only, each followed at once by its one history record (success,
  then failure).
\<close>

lemma multi_step_exit_code_failure:
  assumes "c1 \<noteq> []" and "c2 \<noteq> []"
      and "\<not> list_ex isBlacklisted [c1, c2, c3]"
      and "answer (userInput w (length (prompts st))) (\<not> list_ex isDestructive [c1, c2, c3])"
      and "childOutcome w (length (spawned st)) c1 \<in> {Closed (Some 0), Closed None}"
      and "childOutcome w (length (spawned st) + 1) c2 = Closed (Some k)" and "k \<noteq> 0"
  shows "\<exists>st'. executeMultipleCommands w [c1, c2, c3] userPrompt st = (Inl (Exit 1), st')
       \<and> runCommands w [c1, c2, c3] userPrompt st = (Inl (Exit 1), st')
       \<and> activity st' = activity st @
           [Spawned c1 (shellExecutable w),
            SaveToHistory \<lparr>command = c1, prompt = userPrompt, success = True,
                           timestamp = clock w (length (saves st))\<rparr>,
            Spawned c2 (shellExecutable w),
            SaveToHistory \<lparr>command = c2, prompt = userPrompt, success = False,
                           timestamp = clock w (length (saves st) + 1)\<rparr>]
       \<and> historyFile st' =
           (if writable st
            then Stored (take 50
                   (\<lparr>command = c2, prompt = userPrompt, success = False,
                     timestamp = clock w (length (saves st) + 1)\<rparr>
                    # \<lparr>command = c1, prompt = userPrompt, success = True,
                       timestamp = clock w (length (saves st))\<rparr>
                    # fst (getHistory st)))
            else historyFile st)"
proof -
  define d where "d = list_ex isDestructive [c1, c2, c3]"
  define st1 where "st1 = (if d then emit (Warn DestructivePlan) st else st)"
  define st2 where "st2 = emit (Prompted (\<not> d)) st1"
  define r1 where "r1 = executeCommand w c1 userPrompt True st2"
  define r2 where "r2 = executeCommand w c2 userPrompt True (snd r1)"
  define st' where "st' = emit (Error (StepFailed 2)) (snd r2)"
  have st2: "spawned st2 = spawned st" "saves st2 = saves st" "activity st2 = activity st"
    "writable st2 = writable st" "historyFile st2 = historyFile st"
    "fst (getHistory st2) = fst (getHistory st)"
    by (simp_all add: st2_def st1_def)
  have p1: "prompts st1 = prompts st"
    by (simp add: st1_def)
  obtain code1 where o1: "childOutcome w (length (spawned st2)) c1 = Closed code1"
      and ok1: "code1 = Some 0 \<or> code1 = None"
    using assms(5) by (auto simp add: st2)
  have r1: "r1 = (Inr True, snd (onClose w c1 userPrompt True code1
                (emit (Spawned c1 (shellExecutable w)) st2)))"
    using ok1 unfolding r1_def by (simp add: executeCommand_closed [OF assms(1) o1])
  have f1: "fst (onClose w c1 userPrompt True code1
                (emit (Spawned c1 (shellExecutable w)) st2)) = True"
    using ok1 by (simp add: onClose_fst)
  have s1: "spawned (snd r1) = spawned st @ [Spawned c1 (shellExecutable w)]"
    "saves (snd r1) = saves st @ [SaveToHistory (newEntry w c1 userPrompt True st)]"
    "activity (snd r1) = activity st @ [Spawned c1 (shellExecutable w),
        SaveToHistory (newEntry w c1 userPrompt True st)]"
    "writable (snd r1) = writable st"
    "historyFile (snd r1) =
       (if writable st then Stored (take 50 (newEntry w c1 userPrompt True st # fst (getHistory st)))
        else historyFile st)"
    using f1 unfolding r1 by (simp_all add: onClose_state st2 newEntry_def)
  have g1: "fst (getHistory (snd r1)) =
       (if writable st then take 50 (newEntry w c1 userPrompt True st # fst (getHistory st))
        else fst (getHistory st))"
    using s1(5) by (simp add: getHistory_def split: history_file.splits)
  have o2: "childOutcome w (length (spawned (snd r1))) c2 = Closed (Some k)"
    using assms(6) by (simp add: s1)
  have r2: "r2 = (Inr False, snd (onClose w c2 userPrompt True (Some k)
                (emit (Spawned c2 (shellExecutable w)) (snd r1))))"
    using assms(7) unfolding r2_def by (simp add: executeCommand_closed [OF assms(2) o2])
  have f2: "fst (onClose w c2 userPrompt True (Some k)
                (emit (Spawned c2 (shellExecutable w)) (snd r1))) = False"
    using assms(7) by (simp add: onClose_fst)
  have e2: "newEntry w c2 userPrompt False (snd r1) =
      \<lparr>command = c2, prompt = userPrompt, success = False,
       timestamp = clock w (length (saves st) + 1)\<rparr>"
    by (simp add: newEntry_def s1)
  have s2: "activity (snd r2) = activity st @ [Spawned c1 (shellExecutable w),
        SaveToHistory (newEntry w c1 userPrompt True st), Spawned c2 (shellExecutable w),
        SaveToHistory (newEntry w c2 userPrompt False (snd r1))]"
    "historyFile (snd r2) =
       (if writable st
        then Stored (take 50 (newEntry w c2 userPrompt False (snd r1)
                 # newEntry w c1 userPrompt True st # fst (getHistory st)))
        else historyFile st)"
    using f2 unfolding r2 by (simp_all add: onClose_state s1 g1 newEntry_def)
  have x1: "executeCommand w c1 userPrompt True st2 = (Inr True, snd r1)"
    using r1 by (simp add: r1_def)
  have x2: "executeCommand w c2 userPrompt True (snd r1) = (Inr False, snd r2)"
    using r2 by (simp add: r2_def)
  have steps: "runSteps w userPrompt 0 [c1, c2, c3] st2 = (Inl (Exit 1), st')"
    by (simp add: x1 x2 st'_def)
  have multi: "executeMultipleCommands w [c1, c2, c3] userPrompt st = (Inl (Exit 1), st')"
    using assms(3,4) steps
    unfolding executeMultipleCommands_def Let_def confirm_def d_def [symmetric]
    by (simp add: st1_def [symmetric] st2_def [symmetric] p1)
  have run: "runCommands w [c1, c2, c3] userPrompt st = (Inl (Exit 1), st')"
    using multi by (simp add: runCommands_def)
  have act: "activity st' = activity st @ [Spawned c1 (shellExecutable w),
        SaveToHistory (newEntry w c1 userPrompt True st), Spawned c2 (shellExecutable w),
        SaveToHistory (newEntry w c2 userPrompt False (snd r1))]"
    by (simp add: st'_def s2)
  have hist: "historyFile st' =
       (if writable st
        then Stored (take 50 (newEntry w c2 userPrompt False (snd r1)
                 # newEntry w c1 userPrompt True st # fst (getHistory st)))
        else historyFile st)"
    by (simp add: st'_def s2)
  show ?thesis
    using multi run act hist unfolding e2 by (auto simp add: newEntry_def)
qed

text \<open>
  Claim C6. The claim does not hold when the second step fails because its process cannot
  be started. The child then emits \<open>error\<close> and after it \<open>close\<close>; both handlers of
  \<open>executeCommand\<close> call \<open>saveToHistory\<close>, so the failed step is recorded twice. In
  the run below the first two steps are spawned in order, the third is never started and
  the exit status is 1, but three records are written (success, failure, failure), not
  two.
\<close>

theorem failed_spawn_recorded_twice:
  "executeMultipleCommands spawnFailureWorld [''mkdir app'', ''cd app'', ''npm install'']
       ''set up'' emptyState =
     (Inl (Exit 1),
      \<lparr>historyFile = Stored
         [\<lparr>command = ''cd app'', prompt = ''set up'', success = False,
            timestamp = ''2025-01-01T00:00:02.001Z''\<rparr>,
          \<lparr>command = ''cd app'', prompt = ''set up'', success = False,
            timestamp = ''2025-01-01T00:00:02.000Z''\<rparr>,
          \<lparr>command = ''mkdir app'', prompt = ''set up'', success = True,
            timestamp = ''2025-01-01T00:00:01.000Z''\<rparr>],
       writable = True,
       trace =
         [Prompted True,
          Spawned ''mkdir app'' ShellDefault,
          SaveToHistory \<lparr>command = ''mkdir app'', prompt = ''set up'', success = True,
            timestamp = ''2025-01-01T00:00:01.000Z''\<rparr>,
          Spawned ''cd app'' ShellDefault,
          Error (SpawnFailed ''spawn /bin/sh EAGAIN''),
          SaveToHistory \<lparr>command = ''cd app'', prompt = ''set up'', success = False,
            timestamp = ''2025-01-01T00:00:02.000Z''\<rparr>,
          SaveToHistory \<lparr>command = ''cd app'', prompt = ''set up'', success = False,
            timestamp = ''2025-01-01T00:00:02.001Z''\<rparr>,
          Error (StepFailed 2)]\<rparr>)"
  by code_simp

section \<open>Splitting and joining\<close>

lemma splitStr_nonempty [simp]: "splitStr sep s \<noteq> []"
  by (induction s) (auto split: list.splits)

lemma joinStr_Cons_Cons: "joinStr sep ((c # y) # ys) = c # joinStr sep (y # ys)"
  by (cases ys) auto

lemma joinStr_splitStr: "joinStr [sep] (splitStr sep s) = s"
proof (induction s)
  case Nil
  show ?case by simp
next
  case (Cons c cs)
  obtain y ys where sp: "splitStr sep cs = y # ys"
    by (cases "splitStr sep cs") auto
  with Cons show ?case
    by (simp add: joinStr_Cons_Cons)
qed

lemma joinStr_tl_splitStr:
  "joinStr [sep] (drop (Suc 0) (splitStr sep s)) = drop (Suc 0) (dropWhile (\<lambda>c. c \<noteq> sep) s)"
proof (induction s)
  case Nil
  show ?case by simp
next
  case (Cons c cs)
  obtain y ys where sp: "splitStr sep cs = y # ys"
    by (cases "splitStr sep cs") auto
  have "joinStr [sep] (y # ys) = cs"
    using joinStr_splitStr [of sep cs] sp by simp
  with Cons sp show ?case
    by (simp add: drop_Suc)
qed

lemma hd_splitStr: "hd (splitStr sep s) = takeWhile (\<lambda>c. c \<noteq> sep) s"
  by (induction s) (auto split: list.splits)

lemma at_splitStr:
  "at (splitStr sep s) (Suc 0) =
     (if sep \<in> set s
      then Some (takeWhile (\<lambda>c. c \<noteq> sep) (drop (Suc 0) (dropWhile (\<lambda>c. c \<noteq> sep) s)))
      else None)"
proof (induction s)
  case Nil
  show ?case by (simp add: at_def)
next
  case (Cons c cs)
  obtain y ys where sp: "splitStr sep cs = y # ys"
    by (cases "splitStr sep cs") auto
  have y: "y = takeWhile (\<lambda>c. c \<noteq> sep) cs"
    using hd_splitStr [of sep cs] sp by simp
  show ?case
  proof (cases "c = sep")
    case True
    then show ?thesis using sp y by (simp add: at_def)
  next
    case False
    then show ?thesis using Cons sp by (auto simp add: at_def split: if_splits)
  qed
qed

lemma trim_blank:
  assumes "\<forall>c\<in>set s. isWhiteSpace c"
  shows "trim s = []"
proof -
  have blank: "dropWhile isWhiteSpace s = []"
    using assms by simp
  show ?thesis unfolding trim_def blank by simp
qed

lemma afterFirstColon_none:
  assumes "CHR '':'' \<notin> set l"
  shows "afterFirstColon l = []"
proof -
  have none: "dropWhile (\<lambda>c. c \<noteq> CHR '':'') l = []"
    using assms by auto
  show ?thesis unfolding afterFirstColon_def none by simp
qed

lemma afterFirstColon_decomp:
  "CHR '':'' \<notin> set a \<Longrightarrow> afterFirstColon (a @ CHR '':'' # rest) = rest"
  by (simp add: afterFirstColon_def dropWhile_append)

lemma betweenFirstAndSecondColon_decomp:
  "CHR '':'' \<notin> set a \<Longrightarrow> CHR '':'' \<notin> set b \<Longrightarrow>
     betweenFirstAndSecondColon (a @ CHR '':'' # b @ CHR '':'' # c) = b"
  by (simp add: betweenFirstAndSecondColon_def afterFirstColon_decomp takeWhile_append)

lemma command_text:
  "trim (joinStr '':'' (drop (Suc 0) (splitStr (CHR '':'') l))) = trim (afterFirstColon l)"
  using joinStr_tl_splitStr [of "CHR '':''" l] by (simp add: afterFirstColon_def)

lemma suggestions_line_colon: "startsWith l ''SUGGESTIONS:'' \<Longrightarrow> CHR '':'' \<in> set l"
  by (auto simp add: startsWith_iff)

lemma suggestions_line_not_step: "startsWith l ''SUGGESTIONS:'' \<Longrightarrow> \<not> startsWith l ''STEP''"
  by (auto simp add: startsWith_iff)

lemma suggestions_line_not_command:
  "startsWith l ''SUGGESTIONS:'' \<Longrightarrow> \<not> startsWith l ''COMMAND:''"
  by (auto simp add: startsWith_iff)

lemma suggestions_text:
  "startsWith l ''SUGGESTIONS:'' \<Longrightarrow>
     at (splitStr (CHR '':'') l) (Suc 0) = Some (betweenFirstAndSecondColon l)"
  by (simp add: at_splitStr suggestions_line_colon betweenFirstAndSecondColon_def
      afterFirstColon_def)

lemma parseMultiStep_result:
  "parseMultiStep ls acc =
     Inr \<lparr>commands = commands acc
             @ map (\<lambda>l. trim (afterFirstColon l)) (filter (\<lambda>l. startsWith l ''STEP'') ls),
          suggestions =
            (let sl = filter (\<lambda>l. startsWith l ''SUGGESTIONS:'') ls
             in if sl = [] then suggestions acc
                else map trim (splitStr (CHR ''|'') (trim (betweenFirstAndSecondColon (last sl)))))\<rparr>"
proof (induction ls arbitrary: acc)
  case Nil
  show ?case by simp
next
  case (Cons line rest)
  show ?case
  proof (cases "startsWith line ''STEP''")
    case True
    then have "\<not> startsWith line ''SUGGESTIONS:''"
      using suggestions_line_not_step by blast
    with True show ?thesis
      by (simp add: Cons command_text Let_def del: startsWith.simps)
  next
    case False
    show ?thesis
    proof (cases "startsWith line ''SUGGESTIONS:''")
      case True
      with False show ?thesis
        by (simp add: Cons suggestions_text Let_def del: startsWith.simps)
    next
      case no: False
      with False show ?thesis
        by (simp add: Cons Let_def del: startsWith.simps)
    qed
  qed
qed

lemma parseSingle_result:
  "parseSingle ls acc =
     Inr \<lparr>commands = commands acc
             @ map (\<lambda>l. trim (afterFirstColon l)) (filter (\<lambda>l. startsWith l ''COMMAND:'') ls),
          suggestions =
            (let sl = filter (\<lambda>l. startsWith l ''SUGGESTIONS:'') ls
             in if sl = [] then suggestions acc
                else map trim (splitStr (CHR ''|'') (trim (betweenFirstAndSecondColon (last sl)))))\<rparr>"
proof (induction ls arbitrary: acc)
  case Nil
  show ?case by simp
next
  case (Cons line rest)
  show ?case
  proof (cases "startsWith line ''COMMAND:''")
    case True
    then have "\<not> startsWith line ''SUGGESTIONS:''"
      using suggestions_line_not_command by blast
    with True show ?thesis
      by (simp add: Cons command_text Let_def del: startsWith.simps)
  next
    case False
    show ?thesis
    proof (cases "startsWith line ''SUGGESTIONS:''")
      case True
      with False show ?thesis
        by (simp add: Cons suggestions_text Let_def del: startsWith.simps)
    next
      case no: False
      with False show ?thesis
        by (simp add: Cons Let_def del: startsWith.simps)
    qed
  qed
qed

section \<open>What the parser keeps of a line\<close>

text \<open>
  Claim C10. Parsing never fails. The suggestions come from the last line that begins
  with \<open>SUGGESTIONS:\<close>: the text between its first and its second colon, trimmed and
  split at the pipes, so whatever follows a second colon is dropped. Every command is the
  whole text after the first colon of its \<open>COMMAND:\<close> or \<open>STEP\<close> line, later
  colons included.
\<close>

theorem suggestions_cut_at_second_colon:
  "\<exists>plan. parseAIResponse response = Inr plan
     \<and> suggestions plan =
         (let sl = filter (\<lambda>l. startsWith l ''SUGGESTIONS:'') (responseLines response)
          in if sl = [] then []
             else map trim (splitStr (CHR ''|'') (trim (betweenFirstAndSecondColon (last sl)))))
     \<and> commands plan =
         map (\<lambda>l. trim (afterFirstColon l))
           (filter (\<lambda>l. startsWith l
                      (if includesStr response ''MULTI_STEP'' then ''STEP'' else ''COMMAND:''))
              (responseLines response))"
  by (simp add: parseAIResponse_def parseMultiStep_result parseSingle_result Let_def
      del: startsWith.simps includesStr.simps)

text \<open>The two shapes of a response, and a response with colons in both lines.\<close>

lemma parse_colons_example:
  "parseAIResponse (''COMMAND: curl http://a.io:80'' @ [CHR 0x0A]
       @ ''SUGGESTIONS: wget http://a.io | use port: 8080'') =
     Inr \<lparr>commands = [''curl http://a.io:80''], suggestions = [''wget http'']\<rparr>"
  by code_simp

lemma parse_single_example:
  "parseAIResponse (''COMMAND: npm install'' @ [CHR 0x0A] @ ''SUGGESTIONS: a | b | c'') =
     Inr \<lparr>commands = [''npm install''], suggestions = [''a'', ''b'', ''c'']\<rparr>"
  by code_simp

lemma parse_multi_example:
  "parseAIResponse (''MULTI_STEP'' @ [CHR 0x0A] @ ''STEP1: mkdir x'' @ [CHR 0x0A]
       @ ''STEP2: cd x'' @ [CHR 0x0A] @ ''SUGGESTIONS: alt'') =
     Inr \<lparr>commands = [''mkdir x'', ''cd x''], suggestions = [''alt'']\<rparr>"
  by code_simp

section \<open>Step lines without a command\<close>

text \<open>
  Claim C5, as stated, fails: the response \<open>MULTI_STEP\<close>, new line, \<open>STEP1:\<close> holds the
  marker, and its plan has the empty string as its only command.
\<close>

theorem empty_step_command_counterexample:
  "includesStr (''MULTI_STEP'' @ [CHR 0x0A] @ ''STEP1:'') ''MULTI_STEP''
     \<and> parseAIResponse (''MULTI_STEP'' @ [CHR 0x0A] @ ''STEP1:'') =
         Inr \<lparr>commands = [[]], suggestions = []\<rparr>"
  by code_simp

text \<open>
  Claim C5, amended. For a response holding \<open>MULTI_STEP\<close>, parsing never fails and
  gives one command for each non-blank trimmed line that begins with \<open>STEP\<close>, in
  order: the trimmed text after the first colon of the line. A \<open>STEP\<close> line with no
  colon, or with nothing but white space after its first colon, puts the empty string
  among the commands.
\<close>

theorem multi_step_one_command_per_step_line:
  assumes "includesStr response ''MULTI_STEP''"
  shows "\<exists>plan. parseAIResponse response = Inr plan
     \<and> commands plan =
         map (\<lambda>l. trim (afterFirstColon l))
           (filter (\<lambda>l. startsWith l ''STEP'') (responseLines response))
     \<and> (\<forall>l\<in>set (responseLines response).
           startsWith l ''STEP''
             \<and> (CHR '':'' \<notin> set l \<or> (\<forall>c\<in>set (afterFirstColon l). isWhiteSpace c))
           \<longrightarrow> [] \<in> set (commands plan))"
proof -
  let ?steps = "filter (\<lambda>l. startsWith l ''STEP'') (responseLines response)"
  let ?plan = "\<lparr>commands = map (\<lambda>l. trim (afterFirstColon l)) ?steps,
      suggestions =
        (let sl = filter (\<lambda>l. startsWith l ''SUGGESTIONS:'') (responseLines response)
         in if sl = [] then []
            else map trim (splitStr (CHR ''|'') (trim (betweenFirstAndSecondColon (last sl)))))\<rparr>"
  have p: "parseAIResponse response = Inr ?plan"
    using assms by (simp add: parseAIResponse_def parseMultiStep_result Let_def)
  have empty: "[] \<in> set (commands ?plan)"
    if l: "l \<in> set (responseLines response)" "startsWith l ''STEP''"
      and e: "CHR '':'' \<notin> set l \<or> (\<forall>c\<in>set (afterFirstColon l). isWhiteSpace c)" for l
  proof -
    have "\<forall>c\<in>set (afterFirstColon l). isWhiteSpace c"
      using e afterFirstColon_none [of l] by auto
    then have t: "trim (afterFirstColon l) = []"
      by (rule trim_blank)
    have "l \<in> set ?steps"
      using l by (simp del: startsWith.simps)
    then have "trim (afterFirstColon l) \<in> (\<lambda>l. trim (afterFirstColon l)) ` set ?steps"
      by (rule imageI)
    then have "[] \<in> set (map (\<lambda>l. trim (afterFirstColon l)) ?steps)"
      unfolding t by (simp only: set_map)
    then show ?thesis
      by (simp only: ParsedPlan.simps)
  qed
  show ?thesis
  proof (intro exI conjI)
    show "parseAIResponse response = Inr ?plan"
      by (rule p)
    show "commands ?plan = map (\<lambda>l. trim (afterFirstColon l)) ?steps"
      by (simp only: ParsedPlan.simps)
    show "\<forall>l\<in>set (responseLines response).
           startsWith l ''STEP''
             \<and> (CHR '':'' \<notin> set l \<or> (\<forall>c\<in>set (afterFirstColon l). isWhiteSpace c))
           \<longrightarrow> [] \<in> set (commands ?plan)"
      using empty by blast
  qed
qed

theorem multi_step_one_command_per_step_line_witness:
  "\<exists>plan. parseAIResponse stepWithoutCommand = Inr plan
     \<and> commands plan = [''mkdir x'', []]
     \<and> [] \<in> set (commands plan)"
proof -
  have h: "includesStr stepWithoutCommand ''MULTI_STEP''"
    by code_simp
  have ls: "responseLines stepWithoutCommand = [''MULTI_STEP'', ''STEP1: mkdir x'', ''STEP2'']"
    by code_simp
  obtain plan where p: "parseAIResponse stepWithoutCommand = Inr plan"
    and c: "commands plan =
         map (\<lambda>l. trim (afterFirstColon l))
           (filter (\<lambda>l. startsWith l ''STEP'') (responseLines stepWithoutCommand))"
    and e: "\<forall>l\<in>set (responseLines stepWithoutCommand).
           startsWith l ''STEP''
             \<and> (CHR '':'' \<notin> set l \<or> (\<forall>c\<in>set (afterFirstColon l). isWhiteSpace c))
           \<longrightarrow> [] \<in> set (commands plan)"
    using multi_step_one_command_per_step_line [OF h] by blast
  have "map (\<lambda>l. trim (afterFirstColon l))
          (filter (\<lambda>l. startsWith l ''STEP'') [''MULTI_STEP'', ''STEP1: mkdir x'', ''STEP2''])
        = [''mkdir x'', []]"
    by code_simp
  then have c': "commands plan = [''mkdir x'', []]"
    using c ls by simp
  have "''STEP2'' \<in> set (responseLines stepWithoutCommand)"
    by (simp add: ls)
  moreover have "startsWith ''STEP2'' ''STEP''" "CHR '':'' \<notin> set ''STEP2''"
    by simp_all
  ultimately have "[] \<in> set (commands plan)"
    using e by blast
  with p c' show ?thesis by blast
qed

section \<open>Retrying\<close>

text \<open>
  Claim C3. With \<open>maxRetries = 3\<close> and an operation that fails twice and then yields
  \<open>v\<close>, the result is \<open>v\<close>; the operation is invoked three times, with a wait of
  \<open>d * 1\<close> after the first failure, a wait of \<open>d * 2\<close> after the second, and none after
  the third attempt.
\<close>

theorem retry_succeeds_on_third_attempt:
  assumes "fn s0 = (Inl e1, s1)" and "fn s1 = (Inl e2, s2)" and "fn s2 = (Inr v, s3)"
  shows "retryWithBackoff fn 3 d s0 =
           (Inr v, s3,
            [Invoked, RetryWarning 1 (d * 1), Waited (d * 1),
             Invoked, RetryWarning 2 (d * 2), Waited (d * 2),
             Invoked])"
  using assms by (simp add: retryWithBackoff_def retryLoop.simps Let_def)

theorem retry_succeeds_on_third_attempt_witness:
  "retryWithBackoff flakyOp 3 1000 0 =
           (Inr 42, 3,
            [Invoked, RetryWarning 1 (1000 * 1), Waited (1000 * 1),
             Invoked, RetryWarning 2 (1000 * 2), Waited (1000 * 2),
             Invoked])"
proof -
  have h1: "flakyOp 0 = (Inl ''timeout'', 1)" by (simp add: flakyOp_def)
  have h2: "flakyOp 1 = (Inl ''timeout'', 2)" by (simp add: flakyOp_def)
  have h3: "flakyOp 2 = (Inr 42, 3)" by (simp add: flakyOp_def)
  show ?thesis
    by (rule retry_succeeds_on_third_attempt [OF h1 h2 h3])
qed

text \<open>
  Claim C4. With \<open>maxRetries = 3\<close> and an operation that fails three times, the
  operation is invoked three times with the same two waits, and what is thrown is the
  failure of the third attempt itself.
\<close>

theorem retry_rethrows_last_failure:
  assumes "fn s0 = (Inl e1, s1)" and "fn s1 = (Inl e2, s2)" and "fn s2 = (Inl e3, s3)"
  shows "retryWithBackoff fn 3 d s0 =
           (Inl (Some e3), s3,
            [Invoked, RetryWarning 1 (d * 1), Waited (d * 1),
             Invoked, RetryWarning 2 (d * 2), Waited (d * 2),
             Invoked])"
  using assms by (simp add: retryWithBackoff_def retryLoop.simps Let_def)

theorem retry_rethrows_last_failure_witness:
  "retryWithBackoff failingOp 3 1000 0 =
           (Inl (Some 2), 3,
            [Invoked, RetryWarning 1 (1000 * 1), Waited (1000 * 1),
             Invoked, RetryWarning 2 (1000 * 2), Waited (1000 * 2),
             Invoked])"
proof -
  have h1: "failingOp 0 = (Inl 0, 1)" by (simp add: failingOp_def)
  have h2: "failingOp 1 = (Inl 1, 2)" by (simp add: failingOp_def)
  have h3: "failingOp 2 = (Inl 2, 3)" by (simp add: failingOp_def)
  show ?thesis
    by (rule retry_rethrows_last_failure [OF h1 h2 h3])
qed

text \<open>
  Claim C9. With \<open>maxRetries\<close> zero or negative the operation is never invoked, nothing
  is waited for, and what is thrown is \<open>undefined\<close>, the first value of \<open>lastError\<close>.
\<close>

theorem retry_without_attempts:
  assumes "maxRetries \<le> 0"
  shows "retryWithBackoff fn maxRetries baseDelay s = (Inl None, s, [])"
  using assms by (simp add: retryWithBackoff_def retryLoop.simps Let_def)

theorem retry_without_attempts_witness:
  "retryWithBackoff failingOp 0 1000 0 = (Inl None, 0, [])"
proof -
  have h: "(0::int) \<le> 0" by simp
  show ?thesis
    by (rule retry_without_attempts [OF h])
qed

end
